theory Spec2Isabelle
  imports Main "HOL-Library.Word" "HOL-Library.Signed_Division"
begin

section \<open>Basic types\<close>

text \<open>
  Go's \<open>byte\<close>, \<open>uint64\<close> and \<open>int64\<close> are machine words: \<open>+\<close> and \<open>-\<close> wrap around,
  \<open>div\<close> on a word is the unsigned division and \<open>sint\<close> reads a word as a signed value.
  An \<open>ids.ID\<close> is a 32-byte array, here a 256-bit word; \<open>ids.ID{}\<close> is \<open>0\<close>.
\<close>

type_synonym byte = "8 word"
type_synonym bytes = "byte list"
type_synonym uint64 = "64 word"
type_synonym int64 = "64 word"
type_synonym ID = "256 word"

text \<open>
  Errors are values. The constructors named \<open>Err...\<close> are the error variables of package
  \<open>chain\<close>; \<open>ErrNotFound\<close> is the database's error for an absent key; \<open>ErrLibrary\<close> stands
  for an error returned by the external secp256k1 library. The last three are Go run-time
  panics: an integer division by zero, an index out of range, and the explicit
  \<open>panic(err)\<close> of \<open>readWindow\<close>.
\<close>

datatype error =
    ErrPrefixMissing
  | ErrPrefixNotExpired
  | ErrPublicKeyMismatch
  | ErrInvalidSignature
  | ErrNotFound
  | ErrLibrary
  | PanicDivideByZero
  | PanicIndexOutOfRange
  | PanicErr error

text \<open>
  The constants of package \<open>chain\<close> (\<open>chain.MinBlockCost\<close>, \<open>chain.LookbackWindow\<close>,
  \<open>ExpiryTime\<close>, ...) are declared outside the files at hand. They are the fields of the
  genesis parameters and are passed to every function that reads one.
\<close>

record Genesis =
  MinDifficulty :: uint64
  MinBlockCost :: uint64
  ExpiryTime :: uint64
  LookbackWindow :: int64
  BlockTarget :: int64
  TargetTransactions :: int
  PrefixRenewalDiscount :: uint64

section \<open>The prefix registry\<close>

record PrefixInfo =
  Owner :: bytes
  Expiry :: uint64
  Units :: uint64

text \<open>
  The database holds the primary records (prefix to \<open>PrefixInfo\<close>) and the expiry index,
  a set of pairs (expiry, prefix).
\<close>

record Database =
  prefix_info :: "bytes \<rightharpoonup> PrefixInfo"
  expiry_index :: "(uint64 \<times> bytes) set"

text \<open>
  Modelled from the spec: \<open>GetPrefixInfo\<close> is not among the files at hand. The spec (4.3):
  \<open>get(prefix) \<rightarrow> (info, exists)\<close>. The Go function also returns an error, which this
  model of the store never produces.
\<close>

definition GetPrefixInfo :: "Database \<Rightarrow> bytes \<Rightarrow> error + PrefixInfo option" where
  "GetPrefixInfo db prefix = Inr (prefix_info db prefix)"

text \<open>
  Modelled from the spec: \<open>PutPrefixInfo\<close> is not among the files at hand. The spec (4.3):
  \<open>put(prefix, info, prev_expiry)\<close> writes the primary record, removes any old
  expiry-index entry at \<open>prev_expiry\<close> and inserts the new one at \<open>info.expiry\<close>; when
  \<open>prev_expiry = 0\<close> only the insertion occurs. The result is the error (none here) and
  the database after the call.
\<close>

definition PutPrefixInfo ::
  "Database \<Rightarrow> bytes \<Rightarrow> PrefixInfo \<Rightarrow> uint64 \<Rightarrow> error option \<times> Database" where
  "PutPrefixInfo db prefix i lastExpiry =
     (None,
      db\<lparr>prefix_info := (prefix_info db)(prefix \<mapsto> i),
         expiry_index :=
           insert (Expiry i, prefix)
             (if lastExpiry = 0 then expiry_index db
              else expiry_index db - {(lastExpiry, prefix)})\<rparr>)"

record BaseTx =
  Sender :: bytes
  Prefix :: bytes
  Graffiti :: bytes
  BlockID :: ID

subsection \<open>LifelineTx (chain/lifeline_tx.go)\<close>

text \<open>
  \<open>addLife\<close> takes \<open>prefixUnits\<close>, a function of package \<open>chain\<close> that is not among the
  files at hand, as a parameter. The database is passed in and returned: on every error
  path the code returns before it writes, so the database comes back as it was.
  Go evaluates \<open>prefixUnits(prefix) / PrefixRenewalDiscount\<close> first and then
  \<open>ExpiryTime / i.Units / prefixUnits(prefix) / prefixPenalty\<close> from left to right; an
  unsigned division by zero is a run-time panic.
\<close>

definition addLife ::
  "Genesis \<Rightarrow> (bytes \<Rightarrow> uint64) \<Rightarrow> Database \<Rightarrow> bytes \<Rightarrow> error option \<times> Database" where
  "addLife g prefixUnits db prefix =
     (case GetPrefixInfo db prefix of
        Inl err \<Rightarrow> (Some err, db)
      | Inr None \<Rightarrow> (Some ErrPrefixMissing, db)
      | Inr (Some i) \<Rightarrow>
          (let lastExpiry = Expiry i in
           if PrefixRenewalDiscount g = 0 then (Some PanicDivideByZero, db)
           else
             (let prefixPenalty = prefixUnits prefix div PrefixRenewalDiscount g in
              if Units i = 0 \<or> prefixUnits prefix = 0 \<or> prefixPenalty = 0
              then (Some PanicDivideByZero, db)
              else
                PutPrefixInfo db prefix
                  (i\<lparr>Expiry := Expiry i
                       + ExpiryTime g div Units i div prefixUnits prefix div prefixPenalty\<rparr>)
                  lastExpiry)))"

text \<open>\<open>LifelineTx.Execute\<close> ignores the block time and, with it, the sender.\<close>

definition LifelineTx_Execute ::
  "Genesis \<Rightarrow> (bytes \<Rightarrow> uint64) \<Rightarrow> BaseTx \<Rightarrow> Database \<Rightarrow> uint64 \<Rightarrow> error option \<times> Database"
  where
  "LifelineTx_Execute g prefixUnits l db blockTime = addLife g prefixUnits db (Prefix l)"

subsection \<open>ClaimTx\<close>

definition PublicKeyLen :: nat where
  "PublicKeyLen = 33"

text \<open>
  Modelled from the spec: \<open>ClaimTx.Execute\<close> is not among the files at hand, only its
  test \<open>TestClaimTx\<close> is. The spec (4.5): a prefix of the length of a public key must
  equal the sender's serialized public key, failure \<open>PublicKeyMismatch\<close>; then, if an
  entry exists and \<open>existing.expiry > block_time\<close>, fail \<open>PrefixNotExpired\<close>; otherwise
  create or overwrite with \<open>owner = sender\<close>, \<open>units = prefixUnits(prefix)\<close>,
  \<open>expiry = block_time + ExpiryTime\<close>. The first case of \<open>TestClaimTx\<close> shows that
  \<open>Execute\<close> itself returns \<open>ErrPublicKeyMismatch\<close>.
\<close>

definition ClaimTx_Execute ::
  "Genesis \<Rightarrow> (bytes \<Rightarrow> uint64) \<Rightarrow> BaseTx \<Rightarrow> Database \<Rightarrow> uint64 \<Rightarrow> error option \<times> Database"
  where
  "ClaimTx_Execute g prefixUnits c db blockTime =
     (if length (Prefix c) = PublicKeyLen \<and> Prefix c \<noteq> Sender c
      then (Some ErrPublicKeyMismatch, db)
      else
        (case GetPrefixInfo db (Prefix c) of
           Inl err \<Rightarrow> (Some err, db)
         | Inr prev \<Rightarrow>
             (case prev of
                None \<Rightarrow>
                  PutPrefixInfo db (Prefix c)
                    \<lparr>Owner = Sender c, Expiry = blockTime + ExpiryTime g,
                     Units = prefixUnits (Prefix c)\<rparr> 0
              | Some existing \<Rightarrow>
                  if blockTime < Expiry existing then (Some ErrPrefixNotExpired, db)
                  else
                    PutPrefixInfo db (Prefix c)
                      \<lparr>Owner = Sender c, Expiry = blockTime + ExpiryTime g,
                       Units = prefixUnits (Prefix c)\<rparr> (Expiry existing))))"

section \<open>The signer\<close>

text \<open>
  \<open>crypto.Sign\<close> and \<open>crypto.SigToPub\<close> belong to an external library and are parameters
  of the model. \<open>Sign\<close> changes byte 64 of the slice that \<open>crypto.Sign\<close> has just
  returned; indexing a slice of fewer than 65 bytes there is a run-time panic.
\<close>

definition legacySigAdj :: byte where
  "legacySigAdj = 27"

definition SignatureLength :: nat where
  "SignatureLength = 65"

definition Sign :: "(bytes \<Rightarrow> 'k \<Rightarrow> error + bytes) \<Rightarrow> bytes \<Rightarrow> 'k \<Rightarrow> error + bytes" where
  "Sign crypto_Sign dh priv =
     (case crypto_Sign dh priv of
        Inl err \<Rightarrow> Inl err
      | Inr sig \<Rightarrow>
          if length sig \<le> 64 then Inl PanicIndexOutOfRange
          else Inr (sig[64 := sig ! 64 + legacySigAdj]))"

text \<open>
  \<open>DeriveSender\<close> receives a slice, that is a reference to a buffer that its caller still
  holds. The memory is a list of buffers and a slice is the index of its buffer; an index
  beyond the memory reads as the nil slice. \<open>make\<close> (here \<open>make_slice\<close>) allocates a new buffer at the end.
  The memory also records every call of \<open>crypto.SigToPub\<close> with its two arguments.
\<close>

record Memory =
  heap :: "bytes list"
  SigToPub_calls :: "(bytes \<times> bytes) list"

definition slice_at :: "Memory \<Rightarrow> nat \<Rightarrow> bytes" where
  "slice_at m a = (if a < length (heap m) then heap m ! a else [])"

definition make_slice :: "Memory \<Rightarrow> nat \<Rightarrow> nat \<times> Memory" where
  "make_slice m n = (length (heap m), m\<lparr>heap := heap m @ [replicate n 0]\<rparr>)"

text \<open>Go's \<open>copy(dst, src)\<close> copies as many bytes as the shorter of the two holds.\<close>

definition copy :: "Memory \<Rightarrow> nat \<Rightarrow> nat \<Rightarrow> Memory" where
  "copy m dst src =
     (let n = min (length (slice_at m dst)) (length (slice_at m src))
      in if dst < length (heap m)
         then m\<lparr>heap := (heap m)[dst := take n (slice_at m src) @ drop n (slice_at m dst)]\<rparr>
         else m)"

definition DeriveSender ::
  "(bytes \<Rightarrow> bytes \<Rightarrow> error + 'p) \<Rightarrow> Memory \<Rightarrow> bytes \<Rightarrow> nat \<Rightarrow> (error + 'p) \<times> Memory" where
  "DeriveSender crypto_SigToPub m dh sig =
     (if length (slice_at m sig) \<noteq> SignatureLength then (Inl ErrInvalidSignature, m)
      else
        (let (sigcpy, m1) = make_slice m SignatureLength;
             m2 = copy m1 sigcpy sig;
             m3 = m2\<lparr>heap := (heap m2)[sigcpy := (slice_at m2 sigcpy)
                                   [64 := slice_at m2 sigcpy ! 64 - legacySigAdj]]\<rparr>
         in (crypto_SigToPub dh (slice_at m3 sigcpy),
             m3\<lparr>SigToPub_calls := SigToPub_calls m3 @ [(dh, slice_at m3 sigcpy)]\<rparr>)))"

section \<open>Blocks and the VM (vm/vm.go)\<close>

record Transaction =
  TxID :: ID

record Block =
  ID :: ID
  Prnt :: ID
  Tmstmp :: int64
  Difficulty :: uint64
  Cost :: uint64
  Txs :: "Transaction list"

text \<open>
  Of the fields of \<open>VM\<close>, the model keeps the map of verified blocks, the two block ids and
  the part of \<open>vm.db\<close> that holds the accepted blocks (\<open>vm_db\<close>).
\<close>

record VM =
  vm_db :: "ID \<rightharpoonup> Block"
  verifiedBlocks :: "ID \<rightharpoonup> Block"
  preferred :: ID
  lastAccepted :: ID

text \<open>
  Modelled from the spec: \<open>chain.GetBlock\<close> is not among the files at hand. The spec (6):
  the store maps a block id to the encoded block, and a block is fetched by its id.
\<close>

definition chain_GetBlock :: "(ID \<rightharpoonup> Block) \<Rightarrow> ID \<Rightarrow> error + Block" where
  "chain_GetBlock d blkID = (case d blkID of None \<Rightarrow> Inl ErrNotFound | Some b \<Rightarrow> Inr b)"

text \<open>
  \<open>getBlock\<close> looks among the verified blocks first and in the database otherwise. The
  call \<open>b.SetVM(vm)\<close> sets a back-reference of the block, which is no field of the model.
\<close>

definition getBlock :: "VM \<Rightarrow> ID \<Rightarrow> error + Block" where
  "getBlock vm blkID =
     (case verifiedBlocks vm blkID of
        Some blk \<Rightarrow> Inr blk
      | None \<Rightarrow>
          (case chain_GetBlock (vm_db vm) blkID of
             Inl err \<Rightarrow> Inl err
           | Inr b \<Rightarrow> Inr b))"

subsection \<open>readWindow\<close>

text \<open>
  The visitor \<open>f\<close> is a closure that updates variables of its caller: here it takes the
  state of these variables and returns its answer with their new state. The loop of
  \<open>readWindow\<close> walks a chain of parents whose length nothing bounds, so it is a partial
  function: \<open>None\<close> is the run that never returns. A run that returns gives the state left
  by the visitor and the panic, if one ended it. \<open>getBlock\<close> returns a block whenever it
  returns no error, so \<open>curr\<close> (here \<open>cur\<close>) is never nil.
\<close>

partial_function (option) readWindow_loop ::
  "Genesis \<Rightarrow> VM \<Rightarrow> int64 \<Rightarrow> ID \<Rightarrow> (Block \<Rightarrow> 's \<Rightarrow> bool \<times> 's) \<Rightarrow> Block \<Rightarrow> 's
     \<Rightarrow> (error option \<times> 's) option" where
  "readWindow_loop g vm currTime lastID f cur s =
     (if currTime - Tmstmp cur \<le>s LookbackWindow g \<or> ID cur = lastID
      then
        (if \<not> fst (f cur s) then Some (None, snd (f cur s))
         else if Prnt cur = 0 then Some (None, snd (f cur s))
         else
           (case getBlock vm (Prnt cur) of
              Inl err \<Rightarrow> Some (Some (PanicErr err), snd (f cur s))
            | Inr b \<Rightarrow> readWindow_loop g vm currTime lastID f b (snd (f cur s))))
      else Some (None, s))"

declare readWindow_loop.simps [code]

definition readWindow ::
  "Genesis \<Rightarrow> VM \<Rightarrow> int64 \<Rightarrow> ID \<Rightarrow> (Block \<Rightarrow> 's \<Rightarrow> bool \<times> 's) \<Rightarrow> 's
     \<Rightarrow> (error option \<times> 's) option" where
  "readWindow g vm currTime lastID f s =
     (case getBlock vm lastID of
        Inl err \<Rightarrow> Some (Some (PanicErr err), s)
      | Inr cur \<Rightarrow> readWindow_loop g vm currTime lastID f cur s)"


subsection \<open>Recents\<close>

text \<open>Go's division of two \<open>int64\<close> truncates towards zero and wraps around.\<close>

definition int64_div :: "int64 \<Rightarrow> int64 \<Rightarrow> int64" where
  "int64_div a b = word_of_int (sint a sdiv sint b)"

text \<open>The closure that \<open>Recents\<close> passes to \<open>readWindow\<close>, over the two sets it fills.\<close>

definition Recents_visit :: "Block \<Rightarrow> ID set \<times> ID set \<Rightarrow> bool \<times> ID set \<times> ID set" where
  "Recents_visit b st =
     (True, insert (ID b) (fst st), fold (\<lambda>tx ids. insert (TxID tx) ids) (Txs b) (snd st))"

text \<open>The block cost (lines "compute new block cost" of \<open>Recents\<close>).\<close>

definition Recents_newBlockCost :: "Genesis \<Rightarrow> int64 \<Rightarrow> Block \<Rightarrow> uint64" where
  "Recents_newBlockCost g currTime lastBlock =
     (let secondsSinceLast = currTime - Tmstmp lastBlock;
          newBlockCost =
            (if Cost lastBlock < MinBlockCost g then MinBlockCost g else Cost lastBlock)
      in if secondsSinceLast <s BlockTarget g
         then newBlockCost + (BlockTarget g - secondsSinceLast)
         else
           (let possibleDiff = secondsSinceLast - BlockTarget g
            in if possibleDiff < newBlockCost - MinBlockCost g
               then newBlockCost - possibleDiff
               else MinBlockCost g))"

text \<open>
  The minimum difficulty (lines "compute new min difficulty" of \<open>Recents\<close>), from the
  number of recent transactions. The division panics when \<open>LookbackWindow\<close> is zero.
\<close>

definition Recents_newMinDifficulty :: "Genesis \<Rightarrow> int64 \<Rightarrow> Block \<Rightarrow> int \<Rightarrow> error + uint64" where
  "Recents_newMinDifficulty g currTime lastBlock recentTxs =
     (let secondsSinceLast = currTime - Tmstmp lastBlock;
          newMinDifficulty =
            (if Difficulty lastBlock < MinDifficulty g then MinDifficulty g
             else Difficulty lastBlock)
      in if TargetTransactions g < recentTxs then Inr (newMinDifficulty + 1)
         else if recentTxs < TargetTransactions g
         then
           (if LookbackWindow g = 0 then Inl PanicDivideByZero
            else
              (let elapsedWindows = int64_div secondsSinceLast (LookbackWindow g) + 1
               in if elapsedWindows < newMinDifficulty - MinDifficulty g
                  then Inr (newMinDifficulty - elapsedWindows)
                  else Inr (MinDifficulty g)))
         else Inr newMinDifficulty)"

definition Recents ::
  "Genesis \<Rightarrow> VM \<Rightarrow> int64 \<Rightarrow> Block \<Rightarrow> (error + ID set \<times> ID set \<times> uint64 \<times> uint64) option" where
  "Recents g vm currTime lastBlock =
     (case readWindow g vm currTime (ID lastBlock) Recents_visit ({}, {}) of
        None \<Rightarrow> None
      | Some (Some err, st) \<Rightarrow> Some (Inl err)
      | Some (None, st) \<Rightarrow>
          (case Recents_newMinDifficulty g currTime lastBlock (int (card (snd st))) of
             Inl err \<Rightarrow> Some (Inl err)
           | Inr newMinDifficulty \<Rightarrow>
               Some (Inr (fst st, snd st, Recents_newBlockCost g currTime lastBlock,
                          newMinDifficulty))))"

subsection \<open>Verified, Rejected, Accepted\<close>

text \<open>The three functions always return a nil error; the model returns the VM they leave.\<close>

definition Verified :: "VM \<Rightarrow> Block \<Rightarrow> VM" where
  "Verified vm b =
     (let vm1 = (if Prnt b = preferred vm then vm\<lparr>preferred := ID b\<rparr> else vm)
      in vm1\<lparr>verifiedBlocks := (verifiedBlocks vm1)(ID b \<mapsto> b)\<rparr>)"

definition Rejected :: "VM \<Rightarrow> Block \<Rightarrow> VM" where
  "Rejected vm b = vm\<lparr>verifiedBlocks := (verifiedBlocks vm)(ID b := None)\<rparr>"

definition Accepted :: "VM \<Rightarrow> Block \<Rightarrow> VM" where
  "Accepted vm b =
     (let vm1 = vm\<lparr>lastAccepted := ID b\<rparr>
      in vm1\<lparr>verifiedBlocks := (verifiedBlocks vm1)(ID b := None)\<rparr>)"

text \<open>
  A sequence of calls of the consensus engine, the VM it leaves, and the ids of the
  blocks it has passed to \<open>Accepted\<close> or \<open>Rejected\<close>.
\<close>

datatype call = CallVerified Block | CallAccepted Block | CallRejected Block

fun step :: "VM \<Rightarrow> call \<Rightarrow> VM" where
  "step vm (CallVerified b) = Verified vm b"
| "step vm (CallAccepted b) = Accepted vm b"
| "step vm (CallRejected b) = Rejected vm b"

fun run :: "VM \<Rightarrow> call list \<Rightarrow> VM" where
  "run vm [] = vm"
| "run vm (c # cs) = run (step vm c) cs"

fun decided :: "call list \<Rightarrow> ID set" where
  "decided [] = {}"
| "decided (CallVerified b # cs) = decided cs"
| "decided (CallAccepted b # cs) = insert (ID b) (decided cs)"
| "decided (CallRejected b # cs) = insert (ID b) (decided cs)"

text \<open>
  \<open>verify_first D cs\<close>: no call of \<open>cs\<close> passes to \<open>Verified\<close> a block whose id is in \<open>D\<close>
  or has been passed to \<open>Accepted\<close> or \<open>Rejected\<close> earlier in \<open>cs\<close>.
\<close>

fun verify_first :: "ID set \<Rightarrow> call list \<Rightarrow> bool" where
  "verify_first D [] = True"
| "verify_first D (CallVerified b # cs) = (ID b \<notin> D \<and> verify_first D cs)"
| "verify_first D (CallAccepted b # cs) = verify_first (insert (ID b) D) cs"
| "verify_first D (CallRejected b # cs) = verify_first (insert (ID b) D) cs"


subsection \<open>The lookback window of the spec\<close>

text \<open>
  The window as the spec describes it (4.7), to compare with what \<open>readWindow\<close> visits:
  starting at the block \<open>lastID\<close>, walk the parents while
  \<open>currTime - block.timestamp \<le> LookbackWindow\<close> or \<open>block.id = lastID\<close>, and stop when
  genesis is reached. \<open>spec_window g vm currTime lastID bs\<close> holds when the list \<open>bs\<close>, from
  its first block on, is such a walk to its end: each block is followed by its parent,
  which the walk takes, and the last block is the genesis block or has a parent that the
  walk does not take.
\<close>

fun spec_window :: "Genesis \<Rightarrow> VM \<Rightarrow> int64 \<Rightarrow> ID \<Rightarrow> Block list \<Rightarrow> bool" where
  "spec_window g vm currTime lastID [] = False"
| "spec_window g vm currTime lastID [b] =
     (Prnt b = 0 \<or>
      (case getBlock vm (Prnt b) of
         Inl err \<Rightarrow> False
       | Inr p \<Rightarrow> \<not> (currTime - Tmstmp p \<le>s LookbackWindow g \<or> ID p = lastID)))"
| "spec_window g vm currTime lastID (b # p # bs) =
     (Prnt b \<noteq> 0 \<and> getBlock vm (Prnt b) = Inr p
      \<and> (currTime - Tmstmp p \<le>s LookbackWindow g \<or> ID p = lastID)
      \<and> spec_window g vm currTime lastID (p # bs))"

subsection \<open>A small chain\<close>

text \<open>
  Concrete values to run the functions on. The genesis block \<open>blk1\<close> was built with a
  difficulty and a cost of 0, below the floors of \<open>test_genesis\<close>; \<open>blk2\<close> and \<open>blk3\<close>
  extend it; \<open>blk4\<close> and \<open>blk5\<close> are two other children of \<open>blk1\<close>, the first with a
  difficulty and a cost below the floors, the second with the largest difficulty and cost
  that a \<open>uint64\<close> holds.
\<close>

definition test_genesis :: Genesis where
  "test_genesis =
     \<lparr>MinDifficulty = 10, MinBlockCost = 5, ExpiryTime = 30, LookbackWindow = 10,
      BlockTarget = 10, TargetTransactions = 3, PrefixRenewalDiscount = 5\<rparr>"

definition blk1 :: Block where
  "blk1 = \<lparr>ID = 1, Prnt = 0, Tmstmp = 100, Difficulty = 0, Cost = 0, Txs = []\<rparr>"

definition blk2 :: Block where
  "blk2 = \<lparr>ID = 2, Prnt = 1, Tmstmp = 105, Difficulty = 12, Cost = 20,
            Txs = [\<lparr>TxID = 7\<rparr>, \<lparr>TxID = 8\<rparr>]\<rparr>"

definition blk3 :: Block where
  "blk3 = \<lparr>ID = 3, Prnt = 2, Tmstmp = 108, Difficulty = 15, Cost = 20,
            Txs = [\<lparr>TxID = 8\<rparr>, \<lparr>TxID = 9\<rparr>]\<rparr>"

definition blk4 :: Block where
  "blk4 = \<lparr>ID = 4, Prnt = 1, Tmstmp = 105, Difficulty = 3, Cost = 2,
            Txs = [\<lparr>TxID = 6\<rparr>, \<lparr>TxID = 7\<rparr>, \<lparr>TxID = 8\<rparr>, \<lparr>TxID = 9\<rparr>]\<rparr>"

definition blk5 :: Block where
  "blk5 = \<lparr>ID = 5, Prnt = 1, Tmstmp = 105, Difficulty = 18446744073709551615,
            Cost = 18446744073709551615,
            Txs = [\<lparr>TxID = 6\<rparr>, \<lparr>TxID = 7\<rparr>, \<lparr>TxID = 8\<rparr>, \<lparr>TxID = 9\<rparr>]\<rparr>"

definition test_vm :: VM where
  "test_vm =
     \<lparr>vm_db = [1 \<mapsto> blk1],
      verifiedBlocks = [2 \<mapsto> blk2, 3 \<mapsto> blk3, 4 \<mapsto> blk4, 5 \<mapsto> blk5],
      preferred = 3, lastAccepted = 1\<rparr>"

section \<open>LifelineTx\<close>

text \<open>
  Where no divisor is zero, \<open>addLife\<close> succeeds and adds the quotient to the expiry of the
  entry, whose owner and units stay.
\<close>

lemma addLife_extends:
  assumes "prefix_info db prefix = Some i" "Units i \<noteq> 0" "PrefixRenewalDiscount g \<noteq> 0"
    "PrefixRenewalDiscount g \<le> prefixUnits prefix"
  shows "fst (addLife g prefixUnits db prefix) = None \<and>
     prefix_info (snd (addLife g prefixUnits db prefix)) prefix =
       Some (i\<lparr>Expiry := Expiry i + ExpiryTime g div Units i div prefixUnits prefix
                    div (prefixUnits prefix div PrefixRenewalDiscount g)\<rparr>)"
proof -
  have pu: "prefixUnits prefix \<noteq> 0" using assms(3,4) by auto
  have "unat (PrefixRenewalDiscount g) \<le> unat (prefixUnits prefix)"
    using assms(4) by (simp add: word_le_nat_alt)
  moreover have "0 < unat (PrefixRenewalDiscount g)" using assms(3) by (simp add: unat_gt_0)
  ultimately have "0 < unat (prefixUnits prefix) div unat (PrefixRenewalDiscount g)"
    by (simp add: div_greater_zero_iff)
  then have "unat (prefixUnits prefix div PrefixRenewalDiscount g) \<noteq> 0"
    by (simp add: unat_div)
  then have pen: "prefixUnits prefix div PrefixRenewalDiscount g \<noteq> 0" by auto
  show ?thesis
    using assms(1,2,3) pu pen
    by (simp add: addLife_def GetPrefixInfo_def PutPrefixInfo_def Let_def)
qed

lemma LifelineTx_missing_iff:
  "fst (LifelineTx_Execute g prefixUnits l db blockTime) = Some ErrPrefixMissing
     \<longleftrightarrow> prefix_info db (Prefix l) = None"
  by (auto simp: LifelineTx_Execute_def addLife_def GetPrefixInfo_def PutPrefixInfo_def Let_def
      split: option.splits)

lemma LifelineTx_failure_keeps_store:
  "fst (LifelineTx_Execute g prefixUnits l db blockTime) \<noteq> None
     \<Longrightarrow> snd (LifelineTx_Execute g prefixUnits l db blockTime) = db"
  by (auto simp: LifelineTx_Execute_def addLife_def GetPrefixInfo_def PutPrefixInfo_def Let_def
      split: option.splits)

lemma LifelineTx_permissionless:
  "Prefix l' = Prefix l
     \<Longrightarrow> LifelineTx_Execute g prefixUnits l' db blockTime'
         = LifelineTx_Execute g prefixUnits l db blockTime"
  by (simp add: LifelineTx_Execute_def)

text \<open>
  C1. The claim: for every prefix with an entry, a lifeline adds
  \<open>ExpiryTime / info.units / prefixUnits(prefix) / penalty\<close> seconds to the expiry, where
  \<open>penalty = prefixUnits(prefix) / PrefixRenewalDiscount\<close> with a minimum of 1.
  \<open>addLife\<close> has no such minimum: for the prefix \<open>foo\<close> with 4 units and a discount of 5
  the penalty is 0, the last division panics and the entry keeps its expiry of 100, where
  the claim has it extended by \<open>2592000 / 1 / 4 / 1\<close> seconds.
\<close>

theorem addLife_penalty_zero_panics:
  "addLife
     \<lparr>MinDifficulty = 1, MinBlockCost = 1, ExpiryTime = 2592000, LookbackWindow = 10,
      BlockTarget = 1, TargetTransactions = 10, PrefixRenewalDiscount = 5\<rparr>
     (\<lambda>p. 4)
     \<lparr>prefix_info = [[102, 111, 111] \<mapsto> \<lparr>Owner = [1], Expiry = 100, Units = 1\<rparr>],
      expiry_index = {(100, [102, 111, 111])}\<rparr>
     [102, 111, 111]
   = (Some PanicDivideByZero,
      \<lparr>prefix_info = [[102, 111, 111] \<mapsto> \<lparr>Owner = [1], Expiry = 100, Units = 1\<rparr>],
       expiry_index = {(100, [102, 111, 111])}\<rparr>)"
  by (simp add: addLife_def GetPrefixInfo_def)

text \<open>
  C2. The claim: a lifeline fails with \<open>PrefixMissing\<close> exactly when the prefix has no
  entry, and succeeds for every sender and block time when it has one. Here the prefix
  \<open>bar\<close> has an entry, and the lifeline of any sender at any block time ends in the panic
  of the division by a penalty of 0.
\<close>

theorem LifelineTx_Execute_existing_entry_panics:
  "LifelineTx_Execute
     \<lparr>MinDifficulty = 1, MinBlockCost = 1, ExpiryTime = 2592000, LookbackWindow = 10,
      BlockTarget = 1, TargetTransactions = 10, PrefixRenewalDiscount = 5\<rparr>
     (\<lambda>p. 3)
     \<lparr>Sender = sender, Prefix = [98, 97, 114], Graffiti = [], BlockID = 0\<rparr>
     \<lparr>prefix_info = [[98, 97, 114] \<mapsto> \<lparr>Owner = [7], Expiry = 50, Units = 2\<rparr>],
      expiry_index = {(50, [98, 97, 114])}\<rparr>
     blockTime
   = (Some PanicDivideByZero,
      \<lparr>prefix_info = [[98, 97, 114] \<mapsto> \<lparr>Owner = [7], Expiry = 50, Units = 2\<rparr>],
       expiry_index = {(50, [98, 97, 114])}\<rparr>)"
  by (simp add: LifelineTx_Execute_def addLife_def GetPrefixInfo_def)

section \<open>ClaimTx\<close>

text \<open>
  C3, as amended. For a prefix that is not of the length of a public key, or that is the
  sender's key: a \<open>ClaimTx(prefix, sender)\<close> executed at block time \<open>t\<close> fails with
  \<open>PrefixNotExpired\<close> and leaves the database as it was if the registry has an entry for
  the prefix with \<open>expiry > t\<close>; otherwise it succeeds and leaves the entry
  (owner = sender, units = \<open>prefixUnits(prefix)\<close>, expiry = \<open>t + ExpiryTime\<close>).
\<close>

theorem ClaimTx_Execute_claims:
  assumes "length (Prefix c) \<noteq> PublicKeyLen \<or> Prefix c = Sender c"
  shows "((\<exists>e. prefix_info db (Prefix c) = Some e \<and> blockTime < Expiry e)
           \<longrightarrow> ClaimTx_Execute g prefixUnits c db blockTime = (Some ErrPrefixNotExpired, db))
       \<and> (\<not> (\<exists>e. prefix_info db (Prefix c) = Some e \<and> blockTime < Expiry e)
           \<longrightarrow> fst (ClaimTx_Execute g prefixUnits c db blockTime) = None
             \<and> prefix_info (snd (ClaimTx_Execute g prefixUnits c db blockTime)) (Prefix c)
                = Some \<lparr>Owner = Sender c, Expiry = blockTime + ExpiryTime g,
                        Units = prefixUnits (Prefix c)\<rparr>)"
  using assms
  by (auto simp: ClaimTx_Execute_def GetPrefixInfo_def PutPrefixInfo_def split: option.splits)

text \<open>
  The claim as it was stated fails for a prefix of 33 bytes that is not the sender's key:
  with no entry in the registry the claim does not succeed, it fails with
  \<open>PublicKeyMismatch\<close> (the first case of \<open>TestClaimTx\<close>).
\<close>

theorem ClaimTx_Execute_public_key_mismatch:
  "fst (ClaimTx_Execute
      \<lparr>MinDifficulty = 1, MinBlockCost = 1, ExpiryTime = 2592000, LookbackWindow = 10,
       BlockTarget = 1, TargetTransactions = 10, PrefixRenewalDiscount = 5\<rparr>
      (\<lambda>p. 4)
      \<lparr>Sender = replicate 33 2, Prefix = replicate 33 97, Graffiti = [], BlockID = 0\<rparr>
      \<lparr>prefix_info = Map.empty, expiry_index = {}\<rparr> 1)
    = Some ErrPublicKeyMismatch"
  by (simp add: ClaimTx_Execute_def PublicKeyLen_def)

text \<open>
  The scenario of \<open>TestClaimTx\<close>: the prefix \<open>foo\<close> with an entry that expires at 31 is
  claimed at block time 100 with success, and at block time 30 without.
\<close>

theorem ClaimTx_Execute_claims_witness:
  "fst (ClaimTx_Execute
      \<lparr>MinDifficulty = 1, MinBlockCost = 1, ExpiryTime = 30, LookbackWindow = 10,
       BlockTarget = 1, TargetTransactions = 10, PrefixRenewalDiscount = 5\<rparr>
      (\<lambda>p. 4)
      \<lparr>Sender = replicate 33 2, Prefix = [102, 111, 111], Graffiti = [], BlockID = 0\<rparr>
      \<lparr>prefix_info = [[102, 111, 111] \<mapsto> \<lparr>Owner = [9], Expiry = 31, Units = 4\<rparr>],
       expiry_index = {(31, [102, 111, 111])}\<rparr> 100) = None
   \<and> prefix_info (snd (ClaimTx_Execute
      \<lparr>MinDifficulty = 1, MinBlockCost = 1, ExpiryTime = 30, LookbackWindow = 10,
       BlockTarget = 1, TargetTransactions = 10, PrefixRenewalDiscount = 5\<rparr>
      (\<lambda>p. 4)
      \<lparr>Sender = replicate 33 2, Prefix = [102, 111, 111], Graffiti = [], BlockID = 0\<rparr>
      \<lparr>prefix_info = [[102, 111, 111] \<mapsto> \<lparr>Owner = [9], Expiry = 31, Units = 4\<rparr>],
       expiry_index = {(31, [102, 111, 111])}\<rparr> 100)) [102, 111, 111]
      = Some \<lparr>Owner = replicate 33 2, Expiry = 130, Units = 4\<rparr>
   \<and> fst (ClaimTx_Execute
      \<lparr>MinDifficulty = 1, MinBlockCost = 1, ExpiryTime = 30, LookbackWindow = 10,
       BlockTarget = 1, TargetTransactions = 10, PrefixRenewalDiscount = 5\<rparr>
      (\<lambda>p. 4)
      \<lparr>Sender = replicate 33 2, Prefix = [102, 111, 111], Graffiti = [], BlockID = 0\<rparr>
      \<lparr>prefix_info = [[102, 111, 111] \<mapsto> \<lparr>Owner = [9], Expiry = 31, Units = 4\<rparr>],
       expiry_index = {(31, [102, 111, 111])}\<rparr> 30) = Some ErrPrefixNotExpired"
proof -
  let ?g = "\<lparr>MinDifficulty = 1, MinBlockCost = 1, ExpiryTime = 30, LookbackWindow = 10,
       BlockTarget = 1, TargetTransactions = 10, PrefixRenewalDiscount = 5\<rparr>"
  let ?c = "\<lparr>Sender = replicate 33 2, Prefix = [102, 111, 111], Graffiti = [], BlockID = 0\<rparr>"
  let ?db = "\<lparr>prefix_info = [[102, 111, 111] \<mapsto> \<lparr>Owner = [9], Expiry = 31, Units = 4\<rparr>],
       expiry_index = {(31, [102, 111, 111])}\<rparr>"
  have h: "length (Prefix ?c) \<noteq> PublicKeyLen \<or> Prefix ?c = Sender ?c"
    by (simp add: PublicKeyLen_def)
  show ?thesis
    using ClaimTx_Execute_claims [OF h, of ?db 100 ?g "\<lambda>p. 4"]
      ClaimTx_Execute_claims [OF h, of ?db 30 ?g "\<lambda>p. 4"]
    by simp
qed

section \<open>The signer\<close>

lemma slice_at_in_heap:
  "length (slice_at m sig) = SignatureLength \<Longrightarrow> sig < length (heap m)"
  by (auto simp: slice_at_def SignatureLength_def split: if_splits)

text \<open>
  What \<open>DeriveSender\<close> does with a signature of 65 bytes: the memory grows by one buffer,
  the copy with byte 64 lowered by 27, and the library is called once, on that copy.
\<close>

lemma DeriveSender_on_copy:
  assumes "length (slice_at m sig) = SignatureLength"
  shows "DeriveSender crypto_SigToPub m dh sig =
     (crypto_SigToPub dh ((slice_at m sig)[64 := slice_at m sig ! 64 - legacySigAdj]),
      m\<lparr>heap := heap m @ [(slice_at m sig)[64 := slice_at m sig ! 64 - legacySigAdj]],
        SigToPub_calls := SigToPub_calls m
           @ [(dh, (slice_at m sig)[64 := slice_at m sig ! 64 - legacySigAdj])]\<rparr>)"
proof -
  have lt: "sig < length (heap m)" using assms by (rule slice_at_in_heap)
  define m1 where "m1 = m\<lparr>heap := heap m @ [replicate SignatureLength 0]\<rparr>"
  have mk: "make_slice m SignatureLength = (length (heap m), m1)"
    by (simp add: make_slice_def m1_def)
  have s1: "slice_at m1 (length (heap m)) = replicate SignatureLength 0"
    by (simp add: slice_at_def m1_def)
  have s2: "slice_at m1 sig = slice_at m sig"
    using lt by (simp add: slice_at_def m1_def nth_append)
  have cp: "copy m1 (length (heap m)) sig = m\<lparr>heap := heap m @ [slice_at m sig]\<rparr>"
    using assms by (simp add: copy_def s1 s2 Let_def) (simp add: m1_def)
  have s3: "slice_at (m\<lparr>heap := heap m @ [slice_at m sig]\<rparr>) (length (heap m)) = slice_at m sig"
    by (simp add: slice_at_def)
  show ?thesis
    unfolding DeriveSender_def using assms
    by (simp add: mk cp s3 Let_def) (simp add: slice_at_def)
qed

text \<open>
  C7. Let the library sign the digest \<open>dh\<close> with the key \<open>priv\<close> into a signature \<open>sig0\<close>
  of 65 bytes from which it recovers the public key of \<open>priv\<close>. Then \<open>Sign\<close> returns
  \<open>sig0\<close> with 27 added to byte 64, and \<open>DeriveSender\<close> on a slice that holds this
  signature returns the public key of \<open>priv\<close>: the library is handed \<open>sig0\<close> itself, the
  27 taken off again.
\<close>

theorem Sign_DeriveSender_roundtrip:
  assumes "crypto_Sign dh priv = Inr sig0" "length sig0 = SignatureLength"
    "crypto_SigToPub dh sig0 = Inr (pub priv)"
  shows "\<exists>sig. Sign crypto_Sign dh priv = Inr sig
          \<and> sig = sig0[64 := sig0 ! 64 + legacySigAdj]
          \<and> (\<forall>m a. slice_at m a = sig
                \<longrightarrow> fst (DeriveSender crypto_SigToPub m dh a) = Inr (pub priv)
                  \<and> SigToPub_calls (snd (DeriveSender crypto_SigToPub m dh a))
                      = SigToPub_calls m @ [(dh, sig0)])"
proof -
  let ?sig = "sig0[64 := sig0 ! 64 + legacySigAdj]"
  have s: "Sign crypto_Sign dh priv = Inr ?sig"
    using assms(1,2) by (simp add: Sign_def SignatureLength_def)
  have undo: "?sig[64 := ?sig ! 64 - legacySigAdj] = sig0"
    using assms(2) by (simp add: SignatureLength_def)
  have len: "length ?sig = SignatureLength" using assms(2) by simp
  {
    fix m a assume h: "slice_at m a = ?sig"
    then have l: "length (slice_at m a) = SignatureLength" using len by simp
    have "fst (DeriveSender crypto_SigToPub m dh a) = Inr (pub priv)
        \<and> SigToPub_calls (snd (DeriveSender crypto_SigToPub m dh a))
                      = SigToPub_calls m @ [(dh, sig0)]"
      using h undo assms(3) by (simp add: DeriveSender_on_copy[OF l])
  }
  then show ?thesis using s by blast
qed

text \<open>
  A toy library to run the theorem on: the signature is the digest followed by 33 copies
  of the key, and the key recovered is byte 64 plus one.
\<close>

theorem Sign_DeriveSender_roundtrip_witness:
  "length (replicate 32 (1::byte) @ replicate 33 7) = SignatureLength
   \<and> (\<exists>sig. Sign (\<lambda>d k. Inr (d @ replicate 33 (of_nat k))) (replicate 32 1) (7::nat) = Inr sig
       \<and> sig ! 64 = 34
       \<and> fst (DeriveSender
                (\<lambda>d s. if take 32 s = d then Inr (unat (s ! 64) + 1) else Inl ErrLibrary)
                \<lparr>heap = [sig], SigToPub_calls = []\<rparr> (replicate 32 1) 0) = Inr (8::nat))"
proof -
  let ?cs = "\<lambda>(d::bytes) (k::nat). (Inr (d @ replicate 33 (of_nat k)) :: error + bytes)"
  let ?rc = "\<lambda>(d::bytes) (s::bytes).
               if take 32 s = d then Inr (unat (s ! 64) + 1) else (Inl ErrLibrary :: error + nat)"
  have h1: "?cs (replicate 32 1) 7 = Inr (replicate 32 1 @ replicate 33 7)" by simp
  have h2: "length (replicate 32 (1::byte) @ replicate 33 7) = SignatureLength"
    by (simp add: SignatureLength_def)
  have h3: "?rc (replicate 32 1) (replicate 32 1 @ replicate 33 7) = Inr ((\<lambda>k. k + 1) 7)"
    by (simp add: nth_append)
  obtain sig where sg: "Sign ?cs (replicate 32 1) 7 = Inr sig"
    and eq: "sig = (replicate 32 1 @ replicate 33 7)
                     [64 := (replicate 32 1 @ replicate 33 7) ! 64 + legacySigAdj]"
    and rt: "\<forall>m a. slice_at m a = sig
               \<longrightarrow> fst (DeriveSender ?rc m (replicate 32 1) a) = Inr ((\<lambda>k. k + 1) 7)
                 \<and> SigToPub_calls (snd (DeriveSender ?rc m (replicate 32 1) a))
                     = SigToPub_calls m @ [(replicate 32 1, replicate 32 1 @ replicate 33 7)]"
    using Sign_DeriveSender_roundtrip
      [of ?cs "replicate 32 1" 7 "replicate 32 1 @ replicate 33 7" ?rc "\<lambda>k. k + 1",
       OF h1 h2 h3]
    by blast
  have b64: "sig ! 64 = 34" using eq by (simp add: nth_append legacySigAdj_def)
  have sl: "slice_at \<lparr>heap = [sig], SigToPub_calls = []\<rparr> 0 = sig" by (simp add: slice_at_def)
  have "fst (DeriveSender ?rc \<lparr>heap = [sig], SigToPub_calls = []\<rparr> (replicate 32 1) 0) = Inr 8"
    using rt sl by simp
  then show ?thesis using h2 sg b64 by blast
qed

text \<open>
  C8. For every digest \<open>dh\<close> and every slice \<open>sig\<close>: if \<open>sig\<close> is not 65 bytes long,
  \<open>DeriveSender\<close> returns \<open>ErrInvalidSignature\<close> and leaves the memory as it was, the record
  of the calls of the library's recovery included; if \<open>sig\<close> is 65 bytes long, the buffer
  of \<open>sig\<close> and every other buffer the caller holds have the same bytes after the call as
  before, and the one recovery that was attempted got a copy with byte 64 lowered by 27.
\<close>

theorem DeriveSender_leaves_signature:
  "(length (slice_at m sig) \<noteq> SignatureLength
       \<longrightarrow> DeriveSender crypto_SigToPub m dh sig = (Inl ErrInvalidSignature, m))
   \<and> (length (slice_at m sig) = SignatureLength
       \<longrightarrow> slice_at (snd (DeriveSender crypto_SigToPub m dh sig)) sig = slice_at m sig
         \<and> (\<forall>a < length (heap m).
               slice_at (snd (DeriveSender crypto_SigToPub m dh sig)) a = slice_at m a)
         \<and> SigToPub_calls (snd (DeriveSender crypto_SigToPub m dh sig))
             = SigToPub_calls m
               @ [(dh, (slice_at m sig)[64 := slice_at m sig ! 64 - legacySigAdj])])"
proof (cases "length (slice_at m sig) = SignatureLength")
  case False
  then show ?thesis by (simp add: DeriveSender_def)
next
  case True
  have lt: "sig < length (heap m)" using True by (rule slice_at_in_heap)
  show ?thesis
    using True lt by (simp add: DeriveSender_on_copy slice_at_def nth_append)
qed

text \<open>A memory with a buffer of 3 bytes and a buffer of 65 bytes, each passed as \<open>sig\<close>.\<close>

theorem DeriveSender_leaves_signature_witness:
  "DeriveSender (\<lambda>d s. Inr (s ! 64)) \<lparr>heap = [[1, 2, 3], replicate 65 30], SigToPub_calls = []\<rparr>
       [5] 0
     = (Inl ErrInvalidSignature, \<lparr>heap = [[1, 2, 3], replicate 65 30], SigToPub_calls = []\<rparr>)
   \<and> slice_at (snd (DeriveSender (\<lambda>d s. Inr (s ! 64))
         \<lparr>heap = [[1, 2, 3], replicate 65 30], SigToPub_calls = []\<rparr> [5] 1)) 1
       = replicate 65 30
   \<and> SigToPub_calls (snd (DeriveSender (\<lambda>d s. Inr (s ! 64))
         \<lparr>heap = [[1, 2, 3], replicate 65 30], SigToPub_calls = []\<rparr> [5] 1))
       = [([5], replicate 64 30 @ [3])]"
proof -
  let ?m = "\<lparr>heap = [[1, 2, 3], replicate 65 (30::byte)], SigToPub_calls = []\<rparr>"
  let ?f = "\<lambda>(d::bytes) (s::bytes). (Inr (s ! 64) :: error + byte)"
  have a0: "slice_at ?m 0 = [1, 2, 3]" by (simp add: slice_at_def)
  have a1: "slice_at ?m 1 = replicate 65 30" by (simp add: slice_at_def)
  have upd: "(replicate 65 (30::byte))[64 := replicate 65 30 ! 64 - legacySigAdj]
               = replicate 64 30 @ [3]"
  proof -
    have "replicate (Suc 64) (30::byte) = replicate 64 30 @ [30]"
      by (simp only: replicate_Suc replicate_append_same)
    then have "replicate 65 (30::byte) = replicate 64 30 @ [30]" by simp
    then show ?thesis by (simp add: legacySigAdj_def list_update_append nth_append)
  qed
  have l0: "length (slice_at ?m 0) \<noteq> SignatureLength" by (simp add: a0 SignatureLength_def)
  have l1: "length (slice_at ?m 1) = SignatureLength"
    unfolding a1 by (simp add: SignatureLength_def)
  have r0: "DeriveSender ?f ?m [5] 0 = (Inl ErrInvalidSignature, ?m)"
    using DeriveSender_leaves_signature [of ?m 0 ?f "[5]"] l0 by blast
  have r1: "slice_at (snd (DeriveSender ?f ?m [5] 1)) 1 = slice_at ?m 1
      \<and> SigToPub_calls (snd (DeriveSender ?f ?m [5] 1))
          = SigToPub_calls ?m @ [([5], (slice_at ?m 1)[64 := slice_at ?m 1 ! 64 - legacySigAdj])]"
    using DeriveSender_leaves_signature [of ?m 1 ?f "[5]"] l1 by blast
  have c: "SigToPub_calls ?m = []" by simp
  show ?thesis using r0 r1 unfolding a1 upd c by simp
qed

section \<open>Verified, Accepted, Rejected\<close>

lemma verified_disjoint_decided:
  "verify_first D cs \<Longrightarrow> dom (verifiedBlocks vm) \<inter> D = {}
     \<Longrightarrow> dom (verifiedBlocks (run vm cs)) \<inter> (D \<union> decided cs) = {}"
proof (induction cs arbitrary: vm D)
  case Nil
  then show ?case by simp
next
  case (Cons c cs)
  show ?case
  proof (cases c)
    case (CallVerified b)
    with Cons.prems have "verify_first D cs" "dom (verifiedBlocks (Verified vm b)) \<inter> D = {}"
      by (auto simp: Verified_def Let_def)
    from Cons.IH[OF this] show ?thesis using CallVerified by simp
  next
    case (CallAccepted b)
    with Cons.prems have "verify_first (insert (ID b) D) cs"
      "dom (verifiedBlocks (Accepted vm b)) \<inter> insert (ID b) D = {}"
      by (auto simp: Accepted_def Let_def)
    from Cons.IH[OF this] show ?thesis using CallAccepted by simp
  next
    case (CallRejected b)
    with Cons.prems have "verify_first (insert (ID b) D) cs"
      "dom (verifiedBlocks (Rejected vm b)) \<inter> insert (ID b) D = {}"
      by (auto simp: Rejected_def Let_def)
    from Cons.IH[OF this] show ?thesis using CallRejected by simp
  qed
qed

text \<open>
  C9, as amended. \<open>Accepted(b)\<close> and \<open>Rejected(b)\<close> each remove the id of \<open>b\<close> from
  \<open>verifiedBlocks\<close>; and in the state reached from any VM by a sequence of \<open>Verified\<close>,
  \<open>Accepted\<close> and \<open>Rejected\<close> calls in which no block is passed to \<open>Verified\<close> after it was
  passed to \<open>Accepted\<close> or \<open>Rejected\<close>, \<open>verifiedBlocks\<close> holds no block id that the
  sequence has passed to \<open>Accepted\<close> or \<open>Rejected\<close>.
\<close>

theorem verifiedBlocks_disjoint_from_decided:
  "ID b \<notin> dom (verifiedBlocks (Accepted vm b))
   \<and> ID b \<notin> dom (verifiedBlocks (Rejected vm b))
   \<and> (verify_first {} cs \<longrightarrow> dom (verifiedBlocks (run vm cs)) \<inter> decided cs = {})"
  using verified_disjoint_decided [of "{}" cs vm]
  by (simp add: Accepted_def Rejected_def Let_def)

text \<open>
  The claim as it was stated, for any sequence of calls, fails when a block is verified
  again after it was accepted: nothing in \<open>Verified\<close> looks at what was accepted before.
\<close>

theorem verifiedBlocks_reverified_after_accept:
  "1 \<in> dom (verifiedBlocks
        (run \<lparr>vm_db = Map.empty, verifiedBlocks = Map.empty, preferred = 0, lastAccepted = 0\<rparr>
          [CallVerified \<lparr>ID = 1, Prnt = 0, Tmstmp = 5, Difficulty = 1, Cost = 1, Txs = []\<rparr>,
           CallAccepted \<lparr>ID = 1, Prnt = 0, Tmstmp = 5, Difficulty = 1, Cost = 1, Txs = []\<rparr>,
           CallVerified \<lparr>ID = 1, Prnt = 0, Tmstmp = 5, Difficulty = 1, Cost = 1, Txs = []\<rparr>]))
   \<and> 1 \<in> decided
          [CallVerified \<lparr>ID = 1, Prnt = 0, Tmstmp = 5, Difficulty = 1, Cost = 1, Txs = []\<rparr>,
           CallAccepted \<lparr>ID = 1, Prnt = 0, Tmstmp = 5, Difficulty = 1, Cost = 1, Txs = []\<rparr>,
           CallVerified \<lparr>ID = 1, Prnt = 0, Tmstmp = 5, Difficulty = 1, Cost = 1, Txs = []\<rparr>]"
  by (simp add: Verified_def Accepted_def Let_def)

text \<open>Two blocks, the first verified and accepted, the second verified and rejected.\<close>

theorem verifiedBlocks_disjoint_from_decided_witness:
  "verify_first {}
     [CallVerified \<lparr>ID = 1, Prnt = 0, Tmstmp = 5, Difficulty = 1, Cost = 1, Txs = []\<rparr>,
      CallVerified \<lparr>ID = 2, Prnt = 1, Tmstmp = 6, Difficulty = 1, Cost = 1, Txs = []\<rparr>,
      CallAccepted \<lparr>ID = 1, Prnt = 0, Tmstmp = 5, Difficulty = 1, Cost = 1, Txs = []\<rparr>,
      CallRejected \<lparr>ID = 2, Prnt = 1, Tmstmp = 6, Difficulty = 1, Cost = 1, Txs = []\<rparr>]
   \<and> dom (verifiedBlocks
        (run \<lparr>vm_db = Map.empty, verifiedBlocks = Map.empty, preferred = 0, lastAccepted = 0\<rparr>
          [CallVerified \<lparr>ID = 1, Prnt = 0, Tmstmp = 5, Difficulty = 1, Cost = 1, Txs = []\<rparr>,
           CallVerified \<lparr>ID = 2, Prnt = 1, Tmstmp = 6, Difficulty = 1, Cost = 1, Txs = []\<rparr>,
           CallAccepted \<lparr>ID = 1, Prnt = 0, Tmstmp = 5, Difficulty = 1, Cost = 1, Txs = []\<rparr>,
           CallRejected \<lparr>ID = 2, Prnt = 1, Tmstmp = 6, Difficulty = 1, Cost = 1, Txs = []\<rparr>]))
      \<inter> {1, 2} = {}"
proof -
  let ?b1 = "\<lparr>ID = 1, Prnt = 0, Tmstmp = 5, Difficulty = 1, Cost = 1, Txs = []\<rparr>"
  let ?b2 = "\<lparr>ID = 2, Prnt = 1, Tmstmp = 6, Difficulty = 1, Cost = 1, Txs = []\<rparr>"
  let ?cs = "[CallVerified ?b1, CallVerified ?b2, CallAccepted ?b1, CallRejected ?b2]"
  let ?vm = "\<lparr>vm_db = Map.empty, verifiedBlocks = Map.empty, preferred = 0, lastAccepted = 0\<rparr>"
  have h: "verify_first {} ?cs" by simp
  have d: "decided ?cs = {1, 2}" by simp
  from verifiedBlocks_disjoint_from_decided [of ?b1 ?vm ?cs] h
  have "dom (verifiedBlocks (run ?vm ?cs)) \<inter> decided ?cs = {}" by blast
  then show ?thesis using h unfolding d by blast
qed

section \<open>Recents\<close>

text \<open>The two adjustments of \<open>Recents\<close>, each on its own.\<close>

lemma cost_below_target:
  "currTime - Tmstmp lastBlock <s BlockTarget g
     \<Longrightarrow> Recents_newBlockCost g currTime lastBlock
         = max (Cost lastBlock) (MinBlockCost g) + (BlockTarget g - (currTime - Tmstmp lastBlock))"
  by (auto simp: Recents_newBlockCost_def Let_def max_def)

lemma cost_above_target:
  assumes "\<not> currTime - Tmstmp lastBlock <s BlockTarget g"
  shows "uint (Recents_newBlockCost g currTime lastBlock)
         = max (uint (MinBlockCost g))
               (uint (Cost lastBlock) - uint (currTime - Tmstmp lastBlock - BlockTarget g))"
proof -
  define c where "c = (if Cost lastBlock < MinBlockCost g then MinBlockCost g else Cost lastBlock)"
  define pd where "pd = currTime - Tmstmp lastBlock - BlockTarget g"
  have cm: "MinBlockCost g \<le> c" by (simp add: c_def not_less)
  have r: "Recents_newBlockCost g currTime lastBlock
            = (if pd < c - MinBlockCost g then c - pd else MinBlockCost g)"
    using assms by (simp add: Recents_newBlockCost_def Let_def c_def pd_def)
  have sub: "uint (c - MinBlockCost g) = uint c - uint (MinBlockCost g)"
    using cm by (simp add: uint_minus_simple_alt)
  have "uint (Recents_newBlockCost g currTime lastBlock)
         = max (uint (MinBlockCost g)) (uint (Cost lastBlock) - uint pd)"
  proof (cases "pd < c - MinBlockCost g")
    case True
    then have lt: "uint pd < uint c - uint (MinBlockCost g)"
      using sub by (simp add: word_less_def)
    have "uint pd \<le> uint c" using lt uint_ge_0 [of "MinBlockCost g"] by linarith
    then have "pd \<le> c" by (simp add: word_le_def)
    then have d: "uint (c - pd) = uint c - uint pd" by (simp add: uint_minus_simple_alt)
    have "Cost lastBlock = c"
    proof (rule ccontr)
      assume "Cost lastBlock \<noteq> c"
      then have "c = MinBlockCost g" by (simp add: c_def split: if_splits)
      with True show False by simp
    qed
    then show ?thesis using True lt r d by (simp add: max_def)
  next
    case False
    then have ge: "uint c - uint (MinBlockCost g) \<le> uint pd"
      using sub by (simp add: word_less_def)
    have "uint (Cost lastBlock) \<le> uint c"
      by (simp add: c_def word_less_def)
    with ge have "uint (Cost lastBlock) - uint pd \<le> uint (MinBlockCost g)" by linarith
    then show ?thesis using False r by (simp add: max_def)
  qed
  then show ?thesis by (simp add: pd_def)
qed

lemma cost_floor:
  assumes "currTime - Tmstmp lastBlock <s BlockTarget g
     \<longrightarrow> unat (max (Cost lastBlock) (MinBlockCost g))
           + unat (BlockTarget g - (currTime - Tmstmp lastBlock)) < 2 ^ 64"
  shows "MinBlockCost g \<le> Recents_newBlockCost g currTime lastBlock"
proof (cases "currTime - Tmstmp lastBlock <s BlockTarget g")
  case True
  let ?c = "max (Cost lastBlock) (MinBlockCost g)"
  let ?d = "BlockTarget g - (currTime - Tmstmp lastBlock)"
  have "unat (?c + ?d) = unat ?c + unat ?d"
    using assms True by (simp add: unat_add_lem[THEN iffD1])
  moreover have "unat (MinBlockCost g) \<le> unat ?c" by (simp add: word_le_nat_alt[symmetric])
  ultimately have "MinBlockCost g \<le> ?c + ?d" by (simp add: word_le_nat_alt)
  then show ?thesis using True by (simp add: cost_below_target)
next
  case False
  have "uint (MinBlockCost g) \<le> uint (Recents_newBlockCost g currTime lastBlock)"
    by (simp add: cost_above_target[OF False])
  then show ?thesis by (simp add: word_le_def)
qed

lemma Recents_result:
  assumes "Recents g vm currTime lastBlock = Some (Inr (bids, tids, cost, diff))"
  shows "cost = Recents_newBlockCost g currTime lastBlock
       \<and> Recents_newMinDifficulty g currTime lastBlock (int (card tids)) = Inr diff"
  using assms
  by (auto simp: Recents_def split: option.splits prod.splits sum.splits)

lemma diff_above:
  "TargetTransactions g < n
     \<Longrightarrow> Recents_newMinDifficulty g currTime lastBlock n
         = Inr (max (Difficulty lastBlock) (MinDifficulty g) + 1)"
  by (auto simp: Recents_newMinDifficulty_def Let_def max_def)

lemma diff_equal:
  "n = TargetTransactions g
     \<Longrightarrow> Recents_newMinDifficulty g currTime lastBlock n
         = Inr (max (Difficulty lastBlock) (MinDifficulty g))"
  by (auto simp: Recents_newMinDifficulty_def Let_def max_def)

lemma diff_below:
  assumes "n < TargetTransactions g"
    and "Recents_newMinDifficulty g currTime lastBlock n = Inr d"
  shows "uint d = max (uint (MinDifficulty g))
           (uint (Difficulty lastBlock)
              - uint (int64_div (currTime - Tmstmp lastBlock) (LookbackWindow g) + 1))"
proof -
  define c where
    "c = (if Difficulty lastBlock < MinDifficulty g then MinDifficulty g else Difficulty lastBlock)"
  define w where "w = int64_div (currTime - Tmstmp lastBlock) (LookbackWindow g) + 1"
  have cm: "MinDifficulty g \<le> c" by (simp add: c_def not_less)
  have r: "d = (if w < c - MinDifficulty g then c - w else MinDifficulty g)"
    using assms
    by (simp add: Recents_newMinDifficulty_def Let_def c_def w_def split: if_splits)
  have sub: "uint (c - MinDifficulty g) = uint c - uint (MinDifficulty g)"
    using cm by (simp add: uint_minus_simple_alt)
  have "uint d = max (uint (MinDifficulty g)) (uint (Difficulty lastBlock) - uint w)"
  proof (cases "w < c - MinDifficulty g")
    case True
    then have lt: "uint w < uint c - uint (MinDifficulty g)"
      using sub by (simp add: word_less_def)
    have "uint w \<le> uint c" using lt uint_ge_0 [of "MinDifficulty g"] by linarith
    then have "w \<le> c" by (simp add: word_le_def)
    then have e: "uint (c - w) = uint c - uint w" by (simp add: uint_minus_simple_alt)
    have "Difficulty lastBlock = c"
    proof (rule ccontr)
      assume "Difficulty lastBlock \<noteq> c"
      then have "c = MinDifficulty g" by (simp add: c_def split: if_splits)
      with True show False by simp
    qed
    then show ?thesis using True lt r e by (simp add: max_def)
  next
    case False
    then have ge: "uint c - uint (MinDifficulty g) \<le> uint w"
      using sub by (simp add: word_less_def)
    have "uint (Difficulty lastBlock) \<le> uint c"
      by (simp add: c_def word_less_def)
    with ge have "uint (Difficulty lastBlock) - uint w \<le> uint (MinDifficulty g)" by linarith
    then show ?thesis using False r by (simp add: max_def)
  qed
  then show ?thesis by (simp add: w_def)
qed

lemma diff_floor:
  assumes "Recents_newMinDifficulty g currTime lastBlock n = Inr d"
    and "TargetTransactions g < n \<longrightarrow> max (Difficulty lastBlock) (MinDifficulty g) \<noteq> - 1"
  shows "MinDifficulty g \<le> d"
proof -
  let ?c = "max (Difficulty lastBlock) (MinDifficulty g)"
  consider "TargetTransactions g < n" | "n = TargetTransactions g" | "n < TargetTransactions g"
    by linarith
  then show ?thesis
  proof cases
    case 1
    then have d: "d = ?c + 1" using assms(1) by (simp add: diff_above)
    have "?c \<noteq> - 1" using 1 assms(2) by simp
    then have "\<not> ?c + 1 \<le> ?c" by (simp only: inc_less_eq_self_iff_eq not_False_eq_True)
    then have "?c \<le> ?c + 1" by (meson linear)
    moreover have "MinDifficulty g \<le> ?c" by simp
    ultimately show ?thesis using d by simp
  next
    case 2
    then have "d = ?c" using assms(1) by (simp add: diff_equal)
    then show ?thesis by simp
  next
    case 3
    have "uint (MinDifficulty g) \<le> uint d" by (simp add: diff_below[OF 3 assms(1)])
    then show ?thesis by (simp add: word_le_def)
  qed
qed

text \<open>Runs of \<open>Recents\<close> and \<open>readWindow\<close> on the small chain.\<close>

lemmas chain_defs = test_genesis_def test_vm_def blk1_def blk2_def blk3_def blk4_def blk5_def

lemmas Recents_eval = Recents_def readWindow_def getBlock_def chain_GetBlock_def
  readWindow_loop.simps Recents_visit_def Recents_newBlockCost_def Recents_newMinDifficulty_def
  int64_div_def signed_divide_int_def Let_def

lemma Recents_at_blk1: "Recents test_genesis test_vm 103 blk1 = Some (Inr ({1}, {}, 12, 10))"
  by (simp add: chain_defs Recents_eval)

lemma Recents_at_blk3_early: "Recents test_genesis test_vm 110 blk3 = Some (Inr ({1, 2, 3}, {7, 8, 9}, 28, 15))"
  by (simp add: chain_defs Recents_eval insert_commute)

lemma Recents_at_blk3_late: "Recents test_genesis test_vm 121 blk3 = Some (Inr ({3}, {8, 9}, 17, 13))"
  by (simp add: chain_defs Recents_eval insert_commute)

lemma Recents_at_blk4: "Recents test_genesis test_vm 107 blk4 = Some (Inr ({1, 4}, {6, 7, 8, 9}, 13, 11))"
  by (simp add: chain_defs Recents_eval insert_commute)

lemma Recents_at_blk5: "Recents test_genesis test_vm 114 blk5 = Some (Inr ({5}, {6, 7, 8, 9}, 0, 0))"
  by (simp add: chain_defs Recents_eval insert_commute)


lemma test_vm_acyclic: "\<forall>k b p. getBlock test_vm k = Inr b \<longrightarrow> getBlock test_vm (Prnt b) = Inr p
     \<longrightarrow> unat (ID p) < unat (ID b)"
  by (auto simp: chain_defs getBlock_def chain_GetBlock_def split: if_splits option.splits)


text \<open>
  On a store in which no block is its own ancestor (a measure \<open>h\<close> is smaller on the
  parent of each stored block) and the parent of every block but the genesis block is
  stored, the loop of \<open>readWindow\<close> with a visitor that never answers false returns
  without a panic; the blocks it visits are the lookback window of the spec, and the state
  it leaves is the visitor's, run over these blocks in order.
\<close>

lemma loop_window:
  assumes acyc: "\<forall>k b p. getBlock vm k = Inr b \<longrightarrow> getBlock vm (Prnt b) = Inr p
                   \<longrightarrow> h p < (h b :: nat)"
    and closed: "\<forall>k b. getBlock vm k = Inr b \<longrightarrow> Prnt b \<noteq> 0
                   \<longrightarrow> (\<exists>p. getBlock vm (Prnt b) = Inr p)"
    and cont: "\<forall>b s. fst (f b s)"
    and stored: "getBlock vm k = Inr cur"
    and inw: "t - Tmstmp cur \<le>s LookbackWindow g \<or> ID cur = lastID"
  shows "\<exists>bs. readWindow_loop g vm t lastID f cur s
                 = Some (None, fold (\<lambda>b s. snd (f b s)) bs s)
            \<and> hd bs = cur \<and> spec_window g vm t lastID bs"
  using stored inw
proof (induction "h cur" arbitrary: cur s k rule: less_induct)
  case less
  have c: "fst (f cur s)" using cont by blast
  show ?case
  proof (cases "Prnt cur = 0")
    case True
    have "readWindow_loop g vm t lastID f cur s = Some (None, snd (f cur s))"
      using less.prems(2) c True by (subst readWindow_loop.simps) auto
    then show ?thesis using True by (intro exI [of _ "[cur]"]) simp
  next
    case False
    obtain p where p: "getBlock vm (Prnt cur) = Inr p"
      using closed less.prems(1) False by blast
    have hp: "h p < h cur" using acyc less.prems(1) p by blast
    show ?thesis
    proof (cases "t - Tmstmp p \<le>s LookbackWindow g \<or> ID p = lastID")
      case pin: True
      from less.hyps [OF hp p pin, of "snd (f cur s)"]
      obtain bs where
        r: "readWindow_loop g vm t lastID f p (snd (f cur s))
              = Some (None, fold (\<lambda>b s. snd (f b s)) bs (snd (f cur s)))"
        and h: "hd bs = p" and w: "spec_window g vm t lastID bs"
        by blast
      have ne: "bs \<noteq> []" using w by (cases bs) simp_all
      then obtain rest where bs: "bs = p # rest" using h by (cases bs) simp_all
      have "readWindow_loop g vm t lastID f cur s
              = Some (None, fold (\<lambda>b s. snd (f b s)) (cur # bs) s)"
        using less.prems(2) c False p r by (subst readWindow_loop.simps) auto
      moreover have "spec_window g vm t lastID (cur # bs)"
        using False p pin w unfolding bs by simp
      ultimately show ?thesis by (intro exI [of _ "cur # bs"]) simp
    next
      case pout: False
      have "readWindow_loop g vm t lastID f p (snd (f cur s)) = Some (None, snd (f cur s))"
        using pout by (subst readWindow_loop.simps) auto
      then have "readWindow_loop g vm t lastID f cur s = Some (None, snd (f cur s))"
        using less.prems(2) c False p by (subst readWindow_loop.simps) auto
      moreover have "spec_window g vm t lastID [cur]" using p pout by simp
      ultimately show ?thesis by (intro exI [of _ "[cur]"]) simp
    qed
  qed
qed

lemma fold_insert_TxID:
  "fold (\<lambda>tx ids. insert (TxID tx) ids) txs T = T \<union> TxID ` set txs"
  by (induction txs arbitrary: T) auto

lemma fold_Recents_visit:
  "fold (\<lambda>b s. snd (Recents_visit b s)) bs (B, T)
     = (B \<union> ID ` set bs, T \<union> TxID ` set (concat (map Txs bs)))"
  by (induction bs arbitrary: B T) (auto simp: Recents_visit_def fold_insert_TxID)

lemma diff_defined:
  "LookbackWindow g \<noteq> 0 \<Longrightarrow> \<exists>d. Recents_newMinDifficulty g currTime lastBlock n = Inr d"
  by (simp add: Recents_newMinDifficulty_def Let_def)

text \<open>
  So \<open>Recents\<close> returns: the block ids and the transaction ids of the window, the block
  cost and the minimum difficulty.
\<close>

lemma Recents_returns:
  assumes acyc: "\<forall>k b p. getBlock vm k = Inr b \<longrightarrow> getBlock vm (Prnt b) = Inr p
                   \<longrightarrow> h p < (h b :: nat)"
    and closed: "\<forall>k b. getBlock vm k = Inr b \<longrightarrow> Prnt b \<noteq> 0
                   \<longrightarrow> (\<exists>p. getBlock vm (Prnt b) = Inr p)"
    and start: "getBlock vm (ID lastBlock) = Inr lastBlock"
    and lw: "LookbackWindow g \<noteq> 0"
  shows "\<exists>bs diff. hd bs = lastBlock \<and> spec_window g vm currTime (ID lastBlock) bs
     \<and> Recents_newMinDifficulty g currTime lastBlock
          (int (card (TxID ` set (concat (map Txs bs))))) = Inr diff
     \<and> Recents g vm currTime lastBlock
          = Some (Inr (ID ` set bs, TxID ` set (concat (map Txs bs)),
                       Recents_newBlockCost g currTime lastBlock, diff))"
proof -
  have cont: "\<forall>b s. fst (Recents_visit b s)" by (simp add: Recents_visit_def)
  from loop_window [OF acyc closed cont start, of currTime g "ID lastBlock" "({}, {})"]
  obtain bs where
    r: "readWindow_loop g vm currTime (ID lastBlock) Recents_visit lastBlock ({}, {})
          = Some (None, fold (\<lambda>b s. snd (Recents_visit b s)) bs ({}, {}))"
    and h: "hd bs = lastBlock" and w: "spec_window g vm currTime (ID lastBlock) bs"
    by blast
  let ?tids = "TxID ` set (concat (map Txs bs))"
  have rw: "readWindow g vm currTime (ID lastBlock) Recents_visit ({}, {})
              = Some (None, (ID ` set bs, ?tids))"
    using r start by (simp add: readWindow_def fold_Recents_visit)
  obtain diff where d: "Recents_newMinDifficulty g currTime lastBlock (int (card ?tids)) = Inr diff"
    using diff_defined [OF lw] by blast
  have "Recents g vm currTime lastBlock
          = Some (Inr (ID ` set bs, ?tids, Recents_newBlockCost g currTime lastBlock, diff))"
    using d by (simp add: Recents_def rw)
  then show ?thesis using h w d by blast
qed

lemma test_vm_closed:
  "\<forall>k b. getBlock test_vm k = Inr b \<longrightarrow> Prnt b \<noteq> 0 \<longrightarrow> (\<exists>p. getBlock test_vm (Prnt b) = Inr p)"
  by (auto simp: chain_defs getBlock_def chain_GetBlock_def split: if_splits option.splits)

lemma test_vm_blocks:
  "getBlock test_vm (ID blk1) = Inr blk1" "getBlock test_vm (ID blk3) = Inr blk3"
  "getBlock test_vm (ID blk4) = Inr blk4"
  by (simp_all add: chain_defs getBlock_def chain_GetBlock_def)

lemma test_genesis_window: "LookbackWindow test_genesis \<noteq> 0"
  by (simp add: chain_defs)

lemma spec_window_test_run: "spec_window test_genesis test_vm 110 3 [blk3, blk2, blk1]"
  by (simp add: chain_defs getBlock_def chain_GetBlock_def)

text \<open>
  C4, as amended. On a store in which \<open>lastBlock\<close> is stored under its id, no block is its
  own ancestor and every block but the genesis block has its parent stored, and with a
  \<open>LookbackWindow\<close> other than 0, \<open>Recents(currTime, lastBlock)\<close> returns. Let
  \<open>elapsed = currTime - lastBlock.timestamp\<close> (an \<open>int64\<close>) and let \<open>c\<close> be the larger of
  \<open>lastBlock\<close>'s cost and \<open>MinBlockCost\<close>. If \<open>elapsed < BlockTarget\<close>, the block cost
  returned is \<open>c + (BlockTarget - elapsed)\<close> in \<open>uint64\<close> arithmetic; otherwise it is
  \<open>max(MinBlockCost, lastCost - excess)\<close> with \<open>excess = uint64(elapsed - BlockTarget)\<close>, the
  difference taken over the integers. The cost returned is not below \<open>MinBlockCost\<close>,
  unless the addition of the first case wraps around.
\<close>

theorem Recents_block_cost:
  assumes "\<forall>k b p. getBlock vm k = Inr b \<longrightarrow> getBlock vm (Prnt b) = Inr p
             \<longrightarrow> h p < (h b :: nat)"
    and "\<forall>k b. getBlock vm k = Inr b \<longrightarrow> Prnt b \<noteq> 0
             \<longrightarrow> (\<exists>p. getBlock vm (Prnt b) = Inr p)"
    and "getBlock vm (ID lastBlock) = Inr lastBlock"
    and "LookbackWindow g \<noteq> 0"
  shows "\<exists>bids tids cost diff.
      Recents g vm currTime lastBlock = Some (Inr (bids, tids, cost, diff))
    \<and> (currTime - Tmstmp lastBlock <s BlockTarget g
          \<longrightarrow> cost = max (Cost lastBlock) (MinBlockCost g)
                       + (BlockTarget g - (currTime - Tmstmp lastBlock)))
    \<and> (\<not> currTime - Tmstmp lastBlock <s BlockTarget g
          \<longrightarrow> uint cost = max (uint (MinBlockCost g))
               (uint (Cost lastBlock) - uint (currTime - Tmstmp lastBlock - BlockTarget g)))
    \<and> ((currTime - Tmstmp lastBlock <s BlockTarget g
            \<longrightarrow> unat (max (Cost lastBlock) (MinBlockCost g))
                  + unat (BlockTarget g - (currTime - Tmstmp lastBlock)) < 2 ^ 64)
          \<longrightarrow> MinBlockCost g \<le> cost)"
proof -
  from Recents_returns [OF assms, of currTime]
  obtain bs :: "Block list" and diff where
    r: "Recents g vm currTime lastBlock
          = Some (Inr (ID ` set bs, TxID ` set (concat (map Txs bs)),
                       Recents_newBlockCost g currTime lastBlock, diff))"
    by blast
  show ?thesis
    using r cost_below_target [of currTime lastBlock g] cost_above_target [of currTime lastBlock g]
      cost_floor [of currTime lastBlock g]
    by (intro exI [of _ "ID ` set bs"] exI [of _ "TxID ` set (concat (map Txs bs))"]
        exI [of _ "Recents_newBlockCost g currTime lastBlock"] exI [of _ diff]) blast
qed

text \<open>
  The claim as it was stated fails for a last block whose cost is below \<open>MinBlockCost\<close>:
  for \<open>blk1\<close> (cost 0) at time 103 the claim gives \<open>0 + (10 - 3) = 7\<close> and \<open>Recents\<close>
  returns \<open>5 + 7 = 12\<close>. For \<open>blk5\<close> at time 114 the sum wraps around to 0, below the
  floor of 5.
\<close>

theorem Recents_block_cost_unclamped:
  "Recents test_genesis test_vm 103 blk1 = Some (Inr ({1}, {}, 12, 10))
   \<and> 103 - Tmstmp blk1 <s BlockTarget test_genesis
   \<and> Cost blk1 + (BlockTarget test_genesis - (103 - Tmstmp blk1)) = 7
   \<and> Recents test_genesis test_vm 114 blk5 = Some (Inr ({5}, {6, 7, 8, 9}, 0, 0))
   \<and> 0 < MinBlockCost test_genesis"
  using Recents_at_blk1 Recents_at_blk5 by (simp add: chain_defs)

text \<open>\<open>blk3\<close> as last block, 2 seconds and 13 seconds after its timestamp.\<close>

theorem Recents_block_cost_witness:
  "Recents test_genesis test_vm 110 blk3 = Some (Inr ({1, 2, 3}, {7, 8, 9}, 28, 15))
   \<and> (28 :: uint64) = max (Cost blk3) (MinBlockCost test_genesis)
                        + (BlockTarget test_genesis - (110 - Tmstmp blk3))
   \<and> MinBlockCost test_genesis \<le> 28
   \<and> Recents test_genesis test_vm 121 blk3 = Some (Inr ({3}, {8, 9}, 17, 13))
   \<and> uint (17 :: uint64) = max (uint (MinBlockCost test_genesis))
        (uint (Cost blk3) - uint (121 - Tmstmp blk3 - BlockTarget test_genesis))"
proof -
  have a1: "110 - Tmstmp blk3 <s BlockTarget test_genesis" by (simp add: chain_defs)
  have a2: "unat (max (Cost blk3) (MinBlockCost test_genesis))
              + unat (BlockTarget test_genesis - (110 - Tmstmp blk3)) < 2 ^ 64"
    by (simp add: chain_defs)
  have a3: "\<not> 121 - Tmstmp blk3 <s BlockTarget test_genesis" by (simp add: chain_defs)
  from Recents_block_cost
    [OF test_vm_acyclic test_vm_closed test_vm_blocks(2) test_genesis_window, of 110]
  obtain bids tids cost diff where
    r1: "Recents test_genesis test_vm 110 blk3 = Some (Inr (bids, tids, cost, diff))"
    and c1: "110 - Tmstmp blk3 <s BlockTarget test_genesis
          \<longrightarrow> cost = max (Cost blk3) (MinBlockCost test_genesis)
                       + (BlockTarget test_genesis - (110 - Tmstmp blk3))"
    and c3: "(110 - Tmstmp blk3 <s BlockTarget test_genesis
            \<longrightarrow> unat (max (Cost blk3) (MinBlockCost test_genesis))
                  + unat (BlockTarget test_genesis - (110 - Tmstmp blk3)) < 2 ^ 64)
          \<longrightarrow> MinBlockCost test_genesis \<le> cost"
    by blast
  have "cost = 28" using r1 Recents_at_blk3_early by simp
  then have early: "(28 :: uint64) = max (Cost blk3) (MinBlockCost test_genesis)
                        + (BlockTarget test_genesis - (110 - Tmstmp blk3))
      \<and> MinBlockCost test_genesis \<le> 28"
    using c1 c3 a1 a2 by blast
  from Recents_block_cost
    [OF test_vm_acyclic test_vm_closed test_vm_blocks(2) test_genesis_window, of 121]
  obtain bids tids cost diff where
    r2: "Recents test_genesis test_vm 121 blk3 = Some (Inr (bids, tids, cost, diff))"
    and c2: "\<not> 121 - Tmstmp blk3 <s BlockTarget test_genesis
          \<longrightarrow> uint cost = max (uint (MinBlockCost test_genesis))
               (uint (Cost blk3) - uint (121 - Tmstmp blk3 - BlockTarget test_genesis))"
    by blast
  have "cost = 17" using r2 Recents_at_blk3_late by simp
  then have late: "uint (17 :: uint64) = max (uint (MinBlockCost test_genesis))
        (uint (Cost blk3) - uint (121 - Tmstmp blk3 - BlockTarget test_genesis))"
    using c2 a3 by blast
  show ?thesis using early late Recents_at_blk3_early Recents_at_blk3_late by blast
qed

text \<open>
  C5, as amended. On a store in which \<open>lastBlock\<close> is stored under its id, no block is its
  own ancestor and every block but the genesis block has its parent stored, and with a
  \<open>LookbackWindow\<close> other than 0, \<open>Recents(currTime, lastBlock)\<close> returns, and the
  transaction ids it returns are those of the blocks of the lookback window that starts
  at \<open>lastBlock\<close>. Let \<open>n\<close> be their number and let \<open>d\<close> be the larger of \<open>lastBlock\<close>'s
  difficulty and \<open>MinDifficulty\<close>. If \<open>n > TargetTransactions\<close>, the minimum difficulty
  returned is \<open>d + 1\<close> in \<open>uint64\<close> arithmetic; if \<open>n < TargetTransactions\<close>, it is
  \<open>max(MinDifficulty, lastDiff - elapsedWindows)\<close> with
  \<open>elapsedWindows = uint64(elapsed / LookbackWindow) + 1\<close>, the difference taken over the
  integers; if \<open>n = TargetTransactions\<close>, it is \<open>d\<close>.
\<close>

theorem Recents_min_difficulty:
  assumes "\<forall>k b p. getBlock vm k = Inr b \<longrightarrow> getBlock vm (Prnt b) = Inr p
             \<longrightarrow> h p < (h b :: nat)"
    and "\<forall>k b. getBlock vm k = Inr b \<longrightarrow> Prnt b \<noteq> 0
             \<longrightarrow> (\<exists>p. getBlock vm (Prnt b) = Inr p)"
    and "getBlock vm (ID lastBlock) = Inr lastBlock"
    and "LookbackWindow g \<noteq> 0"
  shows "\<exists>bs tids cost diff.
      hd bs = lastBlock \<and> spec_window g vm currTime (ID lastBlock) bs
    \<and> tids = TxID ` set (concat (map Txs bs))
    \<and> Recents g vm currTime lastBlock = Some (Inr (ID ` set bs, tids, cost, diff))
    \<and> (TargetTransactions g < int (card tids)
          \<longrightarrow> diff = max (Difficulty lastBlock) (MinDifficulty g) + 1)
    \<and> (int (card tids) < TargetTransactions g
          \<longrightarrow> uint diff = max (uint (MinDifficulty g))
                (uint (Difficulty lastBlock)
                  - uint (int64_div (currTime - Tmstmp lastBlock) (LookbackWindow g) + 1)))
    \<and> (int (card tids) = TargetTransactions g
          \<longrightarrow> diff = max (Difficulty lastBlock) (MinDifficulty g))"
proof -
  from Recents_returns [OF assms, of currTime]
  obtain bs :: "Block list" and diff where
    h: "hd bs = lastBlock" and w: "spec_window g vm currTime (ID lastBlock) bs"
    and d: "Recents_newMinDifficulty g currTime lastBlock
          (int (card (TxID ` set (concat (map Txs bs))))) = Inr diff"
    and r: "Recents g vm currTime lastBlock
          = Some (Inr (ID ` set bs, TxID ` set (concat (map Txs bs)),
                       Recents_newBlockCost g currTime lastBlock, diff))"
    by blast
  let ?tids = "TxID ` set (concat (map Txs bs))"
  have p1: "TargetTransactions g < int (card ?tids)
          \<longrightarrow> diff = max (Difficulty lastBlock) (MinDifficulty g) + 1"
    using d diff_above [of g "int (card ?tids)" currTime lastBlock] by auto
  have p2: "int (card ?tids) < TargetTransactions g
          \<longrightarrow> uint diff = max (uint (MinDifficulty g))
                (uint (Difficulty lastBlock)
                  - uint (int64_div (currTime - Tmstmp lastBlock) (LookbackWindow g) + 1))"
    using d diff_below [of "int (card ?tids)" g currTime lastBlock diff] by blast
  have p3: "int (card ?tids) = TargetTransactions g
          \<longrightarrow> diff = max (Difficulty lastBlock) (MinDifficulty g)"
    using d diff_equal [of "int (card ?tids)" g currTime lastBlock] by auto
  show ?thesis
    using h w r p1 p2 p3
    by (intro exI [of _ bs] exI [of _ ?tids]
        exI [of _ "Recents_newBlockCost g currTime lastBlock"] exI [of _ diff]) blast
qed

text \<open>
  The claim as it was stated fails for a last block whose difficulty is below
  \<open>MinDifficulty\<close>: for \<open>blk4\<close> (difficulty 3) with four recent transactions, more than the
  target of three, the claim gives \<open>3 + 1 = 4\<close> and \<open>Recents\<close> returns \<open>10 + 1 = 11\<close>.
\<close>

theorem Recents_min_difficulty_unclamped:
  "Recents test_genesis test_vm 107 blk4 = Some (Inr ({1, 4}, {6, 7, 8, 9}, 13, 11))
   \<and> TargetTransactions test_genesis < int (card {6, 7, 8, 9 :: ID})
   \<and> Difficulty blk4 + 1 = 4"
  using Recents_at_blk4 by (simp add: chain_defs)

text \<open>One run of \<open>Recents\<close> for each of the three cases.\<close>

theorem Recents_min_difficulty_witness:
  "Recents test_genesis test_vm 107 blk4 = Some (Inr ({1, 4}, {6, 7, 8, 9}, 13, 11))
   \<and> (11 :: uint64) = max (Difficulty blk4) (MinDifficulty test_genesis) + 1
   \<and> Recents test_genesis test_vm 121 blk3 = Some (Inr ({3}, {8, 9}, 17, 13))
   \<and> uint (13 :: uint64) = max (uint (MinDifficulty test_genesis))
        (uint (Difficulty blk3)
           - uint (int64_div (121 - Tmstmp blk3) (LookbackWindow test_genesis) + 1))
   \<and> Recents test_genesis test_vm 110 blk3 = Some (Inr ({1, 2, 3}, {7, 8, 9}, 28, 15))
   \<and> (15 :: uint64) = max (Difficulty blk3) (MinDifficulty test_genesis)"
proof -
  have a1: "TargetTransactions test_genesis < int (card {6, 7, 8, 9 :: ID})"
    by (simp add: chain_defs)
  have a2: "int (card {8, 9 :: ID}) < TargetTransactions test_genesis"
    by (simp add: chain_defs)
  have a3: "int (card {7, 8, 9 :: ID}) = TargetTransactions test_genesis"
    by (simp add: chain_defs)
  from Recents_min_difficulty
    [OF test_vm_acyclic test_vm_closed test_vm_blocks(3) test_genesis_window, of 107]
  obtain bs :: "Block list" and tids cost diff where
    r: "Recents test_genesis test_vm 107 blk4 = Some (Inr (ID ` set bs, tids, cost, diff))"
    and c: "TargetTransactions test_genesis < int (card tids)
          \<longrightarrow> diff = max (Difficulty blk4) (MinDifficulty test_genesis) + 1"
    by blast
  have "tids = {6, 7, 8, 9}" "diff = 11" using r Recents_at_blk4 by simp_all
  then have above: "(11 :: uint64) = max (Difficulty blk4) (MinDifficulty test_genesis) + 1"
    using c a1 by metis
  from Recents_min_difficulty
    [OF test_vm_acyclic test_vm_closed test_vm_blocks(2) test_genesis_window, of 121]
  obtain bs :: "Block list" and tids cost diff where
    r: "Recents test_genesis test_vm 121 blk3 = Some (Inr (ID ` set bs, tids, cost, diff))"
    and c: "int (card tids) < TargetTransactions test_genesis
          \<longrightarrow> uint diff = max (uint (MinDifficulty test_genesis))
                (uint (Difficulty blk3)
                  - uint (int64_div (121 - Tmstmp blk3) (LookbackWindow test_genesis) + 1))"
    by blast
  have "tids = {8, 9}" "diff = 13" using r Recents_at_blk3_late by simp_all
  then have below: "uint (13 :: uint64) = max (uint (MinDifficulty test_genesis))
        (uint (Difficulty blk3)
           - uint (int64_div (121 - Tmstmp blk3) (LookbackWindow test_genesis) + 1))"
    using c a2 by metis
  from Recents_min_difficulty
    [OF test_vm_acyclic test_vm_closed test_vm_blocks(2) test_genesis_window, of 110]
  obtain bs :: "Block list" and tids cost diff where
    r: "Recents test_genesis test_vm 110 blk3 = Some (Inr (ID ` set bs, tids, cost, diff))"
    and c: "int (card tids) = TargetTransactions test_genesis
          \<longrightarrow> diff = max (Difficulty blk3) (MinDifficulty test_genesis)"
    by blast
  have "tids = {7, 8, 9}" "diff = 15" using r Recents_at_blk3_early by simp_all
  then have equal: "(15 :: uint64) = max (Difficulty blk3) (MinDifficulty test_genesis)"
    using c a3 by metis
  show ?thesis
    using above below equal Recents_at_blk4 Recents_at_blk3_late Recents_at_blk3_early by blast
qed

text \<open>
  C10, as amended. On a store in which \<open>lastBlock\<close> is stored under its id, no block is
  its own ancestor and every block but the genesis block has its parent stored, and with
  a \<open>LookbackWindow\<close> other than 0, \<open>Recents\<close> returns for every last block, one with a
  cost below \<open>MinBlockCost\<close> or a difficulty below \<open>MinDifficulty\<close> included: the block
  cost returned is at least \<open>MinBlockCost\<close> and the minimum difficulty returned is at least
  \<open>MinDifficulty\<close>, provided that neither \<open>uint64\<close> addition wraps around (the clamped
  cost plus \<open>BlockTarget - elapsed\<close>, and the clamped difficulty plus 1). Both inputs are
  clamped up to their floors before the rules apply: \<open>Recents\<close> returns for the block the
  same as for the block with its cost and difficulty raised to the floors.
\<close>

theorem Recents_floors:
  assumes "\<forall>k b p. getBlock vm k = Inr b \<longrightarrow> getBlock vm (Prnt b) = Inr p
             \<longrightarrow> h p < (h b :: nat)"
    and "\<forall>k b. getBlock vm k = Inr b \<longrightarrow> Prnt b \<noteq> 0
             \<longrightarrow> (\<exists>p. getBlock vm (Prnt b) = Inr p)"
    and "getBlock vm (ID lastBlock) = Inr lastBlock"
    and "LookbackWindow g \<noteq> 0"
  shows "\<exists>bids tids cost diff.
      Recents g vm currTime lastBlock = Some (Inr (bids, tids, cost, diff))
    \<and> ((currTime - Tmstmp lastBlock <s BlockTarget g
            \<longrightarrow> unat (max (Cost lastBlock) (MinBlockCost g))
                  + unat (BlockTarget g - (currTime - Tmstmp lastBlock)) < 2 ^ 64)
          \<longrightarrow> MinBlockCost g \<le> cost)
    \<and> ((TargetTransactions g < int (card tids)
            \<longrightarrow> max (Difficulty lastBlock) (MinDifficulty g) \<noteq> - 1)
          \<longrightarrow> MinDifficulty g \<le> diff)
    \<and> Recents g vm currTime
         (lastBlock\<lparr>Cost := max (Cost lastBlock) (MinBlockCost g),
                    Difficulty := max (Difficulty lastBlock) (MinDifficulty g)\<rparr>)
       = Recents g vm currTime lastBlock"
proof -
  from Recents_returns [OF assms, of currTime]
  obtain bs :: "Block list" and diff where
    d: "Recents_newMinDifficulty g currTime lastBlock
          (int (card (TxID ` set (concat (map Txs bs))))) = Inr diff"
    and r: "Recents g vm currTime lastBlock
          = Some (Inr (ID ` set bs, TxID ` set (concat (map Txs bs)),
                       Recents_newBlockCost g currTime lastBlock, diff))"
    by blast
  let ?tids = "TxID ` set (concat (map Txs bs))"
  let ?b = "lastBlock\<lparr>Cost := max (Cost lastBlock) (MinBlockCost g),
                       Difficulty := max (Difficulty lastBlock) (MinDifficulty g)\<rparr>"
  have p1: "(currTime - Tmstmp lastBlock <s BlockTarget g
            \<longrightarrow> unat (max (Cost lastBlock) (MinBlockCost g))
                  + unat (BlockTarget g - (currTime - Tmstmp lastBlock)) < 2 ^ 64)
          \<longrightarrow> MinBlockCost g \<le> Recents_newBlockCost g currTime lastBlock"
    using cost_floor [of currTime lastBlock g] by blast
  have p2: "(TargetTransactions g < int (card ?tids)
            \<longrightarrow> max (Difficulty lastBlock) (MinDifficulty g) \<noteq> - 1)
          \<longrightarrow> MinDifficulty g \<le> diff"
    using diff_floor [OF d] by blast
  have e1: "Recents_newBlockCost g currTime ?b = Recents_newBlockCost g currTime lastBlock"
    by (auto simp: Recents_newBlockCost_def Let_def max_def)
  have e2: "\<And>n. Recents_newMinDifficulty g currTime ?b n
                   = Recents_newMinDifficulty g currTime lastBlock n"
    by (auto simp: Recents_newMinDifficulty_def Let_def max_def)
  have p3: "Recents g vm currTime ?b = Recents g vm currTime lastBlock"
    by (simp add: Recents_def e1 e2 split: option.split prod.split sum.split)
  show ?thesis
    using r p1 p2 p3
    by (intro exI [of _ "ID ` set bs"] exI [of _ ?tids]
        exI [of _ "Recents_newBlockCost g currTime lastBlock"] exI [of _ diff]) blast
qed

text \<open>
  The claim as it was stated, for every last block, fails where an addition wraps
  around: for \<open>blk5\<close>, whose cost and difficulty are \<open>2^64 - 1\<close>, \<open>Recents\<close> returns a cost
  and a difficulty of 0, below both floors.
\<close>

theorem Recents_floors_overflow:
  "Recents test_genesis test_vm 114 blk5 = Some (Inr ({5}, {6, 7, 8, 9}, 0, 0))
   \<and> \<not> MinBlockCost test_genesis \<le> 0 \<and> \<not> MinDifficulty test_genesis \<le> 0"
  using Recents_at_blk5 by (simp add: chain_defs)

text \<open>The genesis block \<open>blk1\<close>, whose cost and difficulty are below the floors.\<close>

theorem Recents_floors_witness:
  "Cost blk1 < MinBlockCost test_genesis \<and> Difficulty blk1 < MinDifficulty test_genesis
   \<and> Recents test_genesis test_vm 103 blk1 = Some (Inr ({1}, {}, 12, 10))
   \<and> MinBlockCost test_genesis \<le> 12 \<and> MinDifficulty test_genesis \<le> 10"
proof -
  have a1: "103 - Tmstmp blk1 <s BlockTarget test_genesis
           \<longrightarrow> unat (max (Cost blk1) (MinBlockCost test_genesis))
                 + unat (BlockTarget test_genesis - (103 - Tmstmp blk1)) < 2 ^ 64"
    by (simp add: chain_defs)
  have a2: "TargetTransactions test_genesis < int (card ({} :: ID set))
           \<longrightarrow> max (Difficulty blk1) (MinDifficulty test_genesis) \<noteq> - 1"
    by (simp add: chain_defs)
  have a3: "Cost blk1 < MinBlockCost test_genesis \<and> Difficulty blk1 < MinDifficulty test_genesis"
    by (simp add: chain_defs)
  from Recents_floors
    [OF test_vm_acyclic test_vm_closed test_vm_blocks(1) test_genesis_window, of 103]
  obtain bids tids cost diff where
    r: "Recents test_genesis test_vm 103 blk1 = Some (Inr (bids, tids, cost, diff))"
    and c1: "(103 - Tmstmp blk1 <s BlockTarget test_genesis
            \<longrightarrow> unat (max (Cost blk1) (MinBlockCost test_genesis))
                  + unat (BlockTarget test_genesis - (103 - Tmstmp blk1)) < 2 ^ 64)
          \<longrightarrow> MinBlockCost test_genesis \<le> cost"
    and c2: "(TargetTransactions test_genesis < int (card tids)
            \<longrightarrow> max (Difficulty blk1) (MinDifficulty test_genesis) \<noteq> - 1)
          \<longrightarrow> MinDifficulty test_genesis \<le> diff"
    by blast
  have "tids = {}" "cost = 12" "diff = 10" using r Recents_at_blk1 by simp_all
  then have "MinBlockCost test_genesis \<le> 12 \<and> MinDifficulty test_genesis \<le> 10"
    using c1 c2 a1 a2 by metis
  then show ?thesis using a3 Recents_at_blk1 by blast
qed

section \<open>readWindow\<close>


text \<open>Where no block is stored under \<open>lastID\<close>, \<open>readWindow\<close> panics before any visit.\<close>

lemma readWindow_missing_start:
  "getBlock vm lastID = Inl err
     \<Longrightarrow> readWindow g vm currTime lastID f s = Some (Some (PanicErr err), s)"
  by (simp add: readWindow_def)



end
